theory Spec2Isabelle
  imports Complex_Main "HOL-Library.List_Lexorder" "HOL-Library.Code_Target_Numeral"
begin

section \<open>Terminal task manager: a shallow embedding of app.py\<close>

text \<open>
  The embedding follows the source function by function. What is modelled and what is not:
  \<^item> A Python \<open>str\<close> is a list of Unicode code points (\<open>pystr\<close>), so that \<open>strip\<close>,
    comparison and sorting act on code points as they do in Python.
  \<^item> A \<open>Task\<close> carries values of the types its dataclass declares (\<open>id: int\<close>,
    \<open>title: str\<close>, ..., \<open>tags: List[str]\<close>). A data file is a JSON array of objects
    whose entries, where present, have those types; an entry may be absent, and
    \<open>due_date\<close> and \<open>tags\<close> may be \<open>null\<close>. Documents of another shape are outside
    the model.
  \<^item> \<open>json.load\<close>, \<open>json.dump\<close> and the file system are library code: a file is either
    absent, unreadable, not valid JSON, or holds the parsed document; \<open>json.dump\<close> followed
    by \<open>json.load\<close> is taken to return the document that was written.
  \<^item> An interactive method receives the lines it reads with \<open>input()\<close> as a record of
    answers, and the clock reading as one more answer. The "press Enter" prompts and all
    printing are left out; what a method reports is returned as a \<open>message\<close>.
  \<^item> Every exception the source can raise on these inputs is a value of \<open>error\<close>.
\<close>

subsection \<open>Strings and builtins\<close>

type_synonym pystr = "nat list"

definition ascii :: "string \<Rightarrow> pystr" where
  "ascii s = map of_char s"

text \<open>The code points for which \<open>str.isspace\<close> holds; \<open>str.strip()\<close> removes exactly these.\<close>

definition isspace :: "nat \<Rightarrow> bool" where
  "isspace c = (c \<in> set ([9, 10, 11, 12, 13, 28, 29, 30, 31, 32, 133, 160, 5760]
                          @ [8192 ..< 8203] @ [8232, 8233, 8239, 8287, 12288]))"

definition strip :: "pystr \<Rightarrow> pystr" where
  "strip s = rev (dropWhile isspace (rev (dropWhile isspace s)))"

text \<open>\<open>s.split(sep)\<close> for a one-character separator: \<open>''.split(',')\<close> is \<open>['']\<close>.\<close>

fun split :: "nat \<Rightarrow> pystr \<Rightarrow> pystr list" where
  "split sep [] = [[]]"
| "split sep (c # cs) =
     (if c = sep then [] # split sep cs
      else (case split sep cs of [] \<Rightarrow> [[c]] | w # ws \<Rightarrow> (c # w) # ws))"

datatype error =
    KeyError string
  | ValueError
  | IndexError
  | ZeroDivisionError
  | OSError
  | JSONDecodeError

definition bind_err :: "error + 'a \<Rightarrow> ('a \<Rightarrow> error + 'b) \<Rightarrow> error + 'b" where
  "bind_err m f = (case m of Inl e \<Rightarrow> Inl e | Inr x \<Rightarrow> f x)"

text \<open>
  \<open>int(s)\<close> on a string: surrounding whitespace is dropped, one sign is allowed, and the
  digits may be separated by single underscores. Anything else raises \<open>ValueError\<close>.
  The whitespace that \<open>int\<close> drops is that of \<open>str.isspace\<close> without the four separator
  controls 28 to 31, which make \<open>int\<close> raise. Only the ASCII digits are modelled: the
  interpreter also accepts the decimal digits of other scripts, from a table that depends
  on its Unicode version, and newer interpreters refuse strings of more than 4300 digits.
\<close>

definition int_space :: "nat \<Rightarrow> bool" where
  "int_space c = (isspace c \<and> (c < 28 \<or> 31 < c))"

definition int_strip :: "pystr \<Rightarrow> pystr" where
  "int_strip s = rev (dropWhile int_space (rev (dropWhile int_space s)))"

definition digit_val :: "nat \<Rightarrow> nat option" where
  "digit_val c = (if 48 \<le> c \<and> c \<le> 57 then Some (c - 48) else None)"

fun parse_digits :: "bool \<Rightarrow> nat \<Rightarrow> pystr \<Rightarrow> nat option" where
  "parse_digits after_digit acc [] = (if after_digit then Some acc else None)"
| "parse_digits after_digit acc (c # cs) =
     (if c = 95 then (if after_digit then parse_digits False acc cs else None)
      else (case digit_val c of
              None \<Rightarrow> None
            | Some d \<Rightarrow> parse_digits True (10 * acc + d) cs))"

definition py_int :: "pystr \<Rightarrow> error + int" where
  "py_int s =
     (case int_strip s of
        [] \<Rightarrow> Inl ValueError
      | c # cs \<Rightarrow>
          (case (if c = 45 then map_option (\<lambda>n. - int n) (parse_digits False 0 cs)
                 else if c = 43 then map_option int (parse_digits False 0 cs)
                 else map_option int (parse_digits False 0 (c # cs))) of
             None \<Rightarrow> Inl ValueError
           | Some n \<Rightarrow> Inr n))"

text \<open>\<open>xs[i]\<close> on a list: a negative index counts from the end, out of range raises.\<close>

definition getitem :: "'a list \<Rightarrow> int \<Rightarrow> error + 'a" where
  "getitem xs i =
     (let n = int (length xs) in
      if 0 \<le> i \<and> i < n then Inr (xs ! nat i)
      else if - n \<le> i \<and> i < 0 then Inr (xs ! nat (n + i))
      else Inl IndexError)"

subsection \<open>Enumerations\<close>

datatype Priority = LOW | MEDIUM | HIGH | URGENT

datatype Status = TODO | IN_PROGRESS | DONE | CANCELLED

text \<open>
  The \<open>.value\<close> of each member, in code points: the Russian labels
  "Nizkij", "Srednij", "Vysokij", "Srochnyj" and
  "K vypolneniju", "V processe", "Vypolneno", "Otmeneno" of the source.
\<close>

fun Priority_value :: "Priority \<Rightarrow> pystr" where
  "Priority_value LOW = [1053, 1080, 1079, 1082, 1080, 1081]"
| "Priority_value MEDIUM = [1057, 1088, 1077, 1076, 1085, 1080, 1081]"
| "Priority_value HIGH = [1042, 1099, 1089, 1086, 1082, 1080, 1081]"
| "Priority_value URGENT = [1057, 1088, 1086, 1095, 1085, 1099, 1081]"

fun Status_value :: "Status \<Rightarrow> pystr" where
  "Status_value TODO = [1050, 32, 1074, 1099, 1087, 1086, 1083, 1085, 1077, 1085, 1080, 1102]"
| "Status_value IN_PROGRESS = [1042, 32, 1087, 1088, 1086, 1094, 1077, 1089, 1089, 1077]"
| "Status_value DONE = [1042, 1099, 1087, 1086, 1083, 1085, 1077, 1085, 1086]"
| "Status_value CANCELLED = [1054, 1090, 1084, 1077, 1085, 1077, 1085, 1086]"

text \<open>\<open>list(Priority)\<close> and \<open>list(Status)\<close>: the members in definition order.\<close>

definition Priority_list :: "Priority list" where
  "Priority_list = [LOW, MEDIUM, HIGH, URGENT]"

definition Status_list :: "Status list" where
  "Status_list = [TODO, IN_PROGRESS, DONE, CANCELLED]"

text \<open>\<open>Priority(v)\<close> and \<open>Status(v)\<close>: the member with that value, else \<open>ValueError\<close>.\<close>

definition Priority_of :: "pystr \<Rightarrow> error + Priority" where
  "Priority_of v =
     (case find (\<lambda>p. Priority_value p = v) Priority_list of
        None \<Rightarrow> Inl ValueError | Some p \<Rightarrow> Inr p)"

definition Status_of :: "pystr \<Rightarrow> error + Status" where
  "Status_of v =
     (case find (\<lambda>st. Status_value st = v) Status_list of
        None \<Rightarrow> Inl ValueError | Some st \<Rightarrow> Inr st)"

subsection \<open>Task and its JSON object\<close>

record Task =
  id' :: int
  title :: pystr
  description :: pystr
  priority :: Priority
  status :: Status
  created_at :: pystr
  due_date :: "pystr option"
  tags :: "pystr list"

text \<open>
  The JSON object of one task, by key. \<open>None\<close> is an absent key; for \<open>due_date\<close> and
  \<open>tags\<close> the inner \<open>None\<close> is JSON \<open>null\<close>.
\<close>

record task_data =
  id_entry :: "int option"
  title_entry :: "pystr option"
  description_entry :: "pystr option"
  priority_entry :: "pystr option"
  status_entry :: "pystr option"
  created_at_entry :: "pystr option"
  due_date_entry :: "pystr option option"
  tags_entry :: "pystr list option option"

text \<open>\<open>d[key]\<close> raises \<open>KeyError\<close> on an absent key; \<open>d.get(key, default)\<close> does not.\<close>

definition subscript :: "string \<Rightarrow> 'a option \<Rightarrow> error + 'a" where
  "subscript key entry = (case entry of None \<Rightarrow> Inl (KeyError key) | Some v \<Rightarrow> Inr v)"

definition get_default :: "'a option \<Rightarrow> 'a \<Rightarrow> 'a" where
  "get_default entry dflt = (case entry of None \<Rightarrow> dflt | Some v \<Rightarrow> v)"

text \<open>\<open>Task.__post_init__\<close>: a \<open>tags\<close> argument of \<open>None\<close> becomes the empty list.\<close>

definition post_init :: "pystr list option \<Rightarrow> pystr list" where
  "post_init tgs = (case tgs of None \<Rightarrow> [] | Some ts \<Rightarrow> ts)"

definition to_dict :: "Task \<Rightarrow> task_data" where
  "to_dict t =
     \<lparr> id_entry = Some (id' t),
       title_entry = Some (title t),
       description_entry = Some (description t),
       priority_entry = Some (Priority_value (priority t)),
       status_entry = Some (Status_value (status t)),
       created_at_entry = Some (created_at t),
       due_date_entry = Some (due_date t),
       tags_entry = Some (Some (tags t)) \<rparr>"

text \<open>
  The \<open>Task(...)\<close> call of \<open>load_tasks\<close>: the arguments are evaluated in the order
  written, so the first failing one decides the exception.
\<close>

definition task_of_data :: "task_data \<Rightarrow> error + Task" where
  "task_of_data d =
     bind_err (subscript ''id'' (id_entry d)) (\<lambda>i.
     bind_err (subscript ''title'' (title_entry d)) (\<lambda>ti.
     bind_err (subscript ''description'' (description_entry d)) (\<lambda>de.
     bind_err (subscript ''priority'' (priority_entry d)) (\<lambda>pv.
     bind_err (Priority_of pv) (\<lambda>p.
     bind_err (subscript ''status'' (status_entry d)) (\<lambda>sv.
     bind_err (Status_of sv) (\<lambda>st.
     bind_err (subscript ''created_at'' (created_at_entry d)) (\<lambda>cr.
       Inr \<lparr> id' = i, title = ti, description = de, priority = p, status = st,
             created_at = cr,
             due_date = get_default (due_date_entry d) None,
             tags = post_init (get_default (tags_entry d) (Some [])) \<rparr>))))))))"

subsection \<open>The application state, load and save\<close>

record TodoApp =
  tasks :: "Task list"
  current_id :: int

datatype data_file =
    Absent
  | Unreadable
  | Malformed
  | Document "task_data list"

text \<open>
  The body of the \<open>for\<close> loop of \<open>load_tasks\<close>. The task is appended before the counter
  is compared, and an exception leaves the loop with what was done so far: the
  \<open>except\<close> clause only prints the diagnostic.
\<close>

fun load_loop :: "task_data list \<Rightarrow> TodoApp \<Rightarrow> TodoApp \<times> error option" where
  "load_loop [] app = (app, None)"
| "load_loop (d # ds) app =
     (case task_of_data d of
        Inl e \<Rightarrow> (app, Some e)
      | Inr task \<Rightarrow>
          (let app1 = app\<lparr>tasks := tasks app @ [task]\<rparr>;
               app2 = (if id' task \<ge> current_id app1
                       then app1\<lparr>current_id := id' task + 1\<rparr> else app1)
           in load_loop ds app2))"

definition load_tasks :: "data_file \<Rightarrow> TodoApp \<Rightarrow> TodoApp \<times> error option" where
  "load_tasks f app =
     (case f of
        Absent \<Rightarrow> (app, None)
      | Unreadable \<Rightarrow> (app, Some OSError)
      | Malformed \<Rightarrow> (app, Some JSONDecodeError)
      | Document ds \<Rightarrow> load_loop ds app)"

text \<open>\<open>TodoApp.__init__\<close>: an empty list, the counter at 1, then \<open>load_tasks\<close>.\<close>

definition new_app :: TodoApp where
  "new_app = \<lparr> tasks = [], current_id = 1 \<rparr>"

definition init :: "data_file \<Rightarrow> TodoApp \<times> error option" where
  "init f = load_tasks f new_app"



subsection \<open>Adding, finding, editing and deleting\<close>

datatype message =
    TitleEmpty
  | TaskAdded
  | NoTasks
  | InvalidId
  | TaskNotFound
  | TaskUpdated
  | TaskDeleted
  | DeleteDeclined

text \<open>The answers \<open>add_task\<close> reads, and the text \<open>datetime.now().strftime\<close> returns.\<close>

record add_answers =
  add_title :: pystr
  add_description :: pystr
  add_priority :: pystr
  add_due_date :: pystr
  add_tags :: pystr
  add_now :: pystr

text \<open>The \<open>try\<close> block of \<open>add_task\<close>: any exception selects \<open>Priority.MEDIUM\<close>.\<close>

definition choose_priority :: "pystr \<Rightarrow> Priority" where
  "choose_priority answer =
     (case bind_err (py_int answer) (\<lambda>priority_choice. getitem Priority_list (priority_choice - 1)) of
        Inl _ \<Rightarrow> MEDIUM
      | Inr p \<Rightarrow> p)"

definition add_task :: "add_answers \<Rightarrow> TodoApp \<Rightarrow> TodoApp \<times> message" where
  "add_task a app =
     (let title_in = strip (add_title a) in
      if title_in = [] then (app, TitleEmpty)
      else
        let description_in = strip (add_description a);
            priority_in = choose_priority (add_priority a);
            due_in = strip (add_due_date a);
            tags_input = strip (add_tags a);
            tags_in = map strip (filter (\<lambda>tag. strip tag \<noteq> []) (split 44 tags_input));
            task = \<lparr> id' = current_id app, title = title_in, description = description_in,
                     priority = priority_in, status = TODO, created_at = add_now a,
                     due_date = (if due_in \<noteq> [] then Some due_in else None),
                     tags = tags_in \<rparr>
        in (app\<lparr>tasks := tasks app @ [task], current_id := current_id app + 1\<rparr>, TaskAdded))"

text \<open>\<open>next((t for t in self.tasks if t.id == task_id), None)\<close>\<close>

definition find_task :: "int \<Rightarrow> Task list \<Rightarrow> Task option" where
  "find_task task_id ts = find (\<lambda>t. id' t = task_id) ts"

text \<open>
  \<open>edit_task\<close> and \<open>complete_task\<close> assign to fields of the object that \<open>next\<close> returned,
  which is the first element of the list with that id: the list then holds the changed
  object in the same place.
\<close>

fun store_found :: "int \<Rightarrow> Task \<Rightarrow> Task list \<Rightarrow> Task list" where
  "store_found task_id new [] = []"
| "store_found task_id new (t # ts) =
     (if id' t = task_id then new # ts else t # store_found task_id new ts)"

record edit_answers =
  edit_id :: pystr
  edit_title :: pystr
  edit_description :: pystr
  edit_status :: pystr

text \<open>The inner \<open>try\<close> of \<open>edit_task\<close>: \<open>list(Status)[int(status_input) - 1]\<close>, or an exception.\<close>

definition choose_status :: "pystr \<Rightarrow> error + Status" where
  "choose_status status_input =
     bind_err (py_int status_input) (\<lambda>n. getitem Status_list (n - 1))"

definition edit_task :: "edit_answers \<Rightarrow> TodoApp \<Rightarrow> TodoApp \<times> message" where
  "edit_task a app =
     (if tasks app = [] then (app, NoTasks)
      else
        (case py_int (edit_id a) of
           Inl _ \<Rightarrow> (app, InvalidId)
         | Inr task_id \<Rightarrow>
             (case find_task task_id (tasks app) of
                None \<Rightarrow> (app, TaskNotFound)
              | Some task \<Rightarrow>
                  (let new_title = strip (edit_title a);
                       task1 = (if new_title \<noteq> [] then task\<lparr>title := new_title\<rparr> else task);
                       new_desc = strip (edit_description a);
                       task2 = (if new_desc \<noteq> [] then task1\<lparr>description := new_desc\<rparr> else task1);
                       status_input = strip (edit_status a);
                       task3 = (if status_input \<noteq> []
                                then (case choose_status status_input of
                                        Inl _ \<Rightarrow> task2
                                      | Inr st \<Rightarrow> task2\<lparr>status := st\<rparr>)
                                else task2)
                   in (app\<lparr>tasks := store_found task_id task3 (tasks app)\<rparr>, TaskUpdated)))))"

record delete_answers =
  delete_id :: pystr
  delete_confirm :: pystr

text \<open>
  \<open>confirm.lower() == 'y'\<close>: the only strings whose lower case is \<open>y\<close> are \<open>y\<close> and \<open>Y\<close>.
\<close>

definition lower_is_y :: "pystr \<Rightarrow> bool" where
  "lower_is_y confirm = (confirm = [121] \<or> confirm = [89])"

text \<open>
  \<open>self.tasks.remove(task)\<close> removes the first element equal to \<open>task\<close>; the dataclass
  compares field by field, as \<open>remove1\<close> does.
\<close>

definition delete_task :: "delete_answers \<Rightarrow> TodoApp \<Rightarrow> TodoApp \<times> message" where
  "delete_task a app =
     (if tasks app = [] then (app, NoTasks)
      else
        (case py_int (delete_id a) of
           Inl _ \<Rightarrow> (app, InvalidId)
         | Inr task_id \<Rightarrow>
             (case find_task task_id (tasks app) of
                None \<Rightarrow> (app, TaskNotFound)
              | Some task \<Rightarrow>
                  (if lower_is_y (delete_confirm a)
                   then (app\<lparr>tasks := remove1 task (tasks app)\<rparr>, TaskDeleted)
                   else (app, DeleteDeclined)))))"

subsection \<open>Tags\<close>

datatype tags_output = NoTags | TagCounts "(pystr \<times> nat) list"

text \<open>
  \<open>manage_tags\<close>: the set of all tags, then one line per tag of \<open>sorted(all_tags)\<close> with
  \<open>sum(1 for t in self.tasks if tag in t.tags)\<close>. Python orders strings by code point,
  lexicographically, which is the order of \<open>pystr\<close>.
\<close>

definition manage_tags :: "TodoApp \<Rightarrow> tags_output" where
  "manage_tags app =
     (let all_tags = fold (\<lambda>task acc. acc \<union> set (tags task)) (tasks app) {} in
      if all_tags = {} then NoTags
      else TagCounts
             (map (\<lambda>tag. (tag, length (filter (\<lambda>t. tag \<in> set (tags t)) (tasks app))))
                  (sorted_list_of_set all_tags)))"

subsection \<open>Floating point, as far as the statistics need it\<close>

text \<open>
  A finite Python \<open>float\<close> is a rational number. Each operation returns the exact result
  rounded to 53 significant bits, ties to even (\<open>fl\<close>); the exponent range is not modelled,
  which changes nothing for the ratios of list lengths computed here.
\<close>

type_synonym pyfloat = rat

fun bit_length :: "nat \<Rightarrow> nat" where
  "bit_length n = (if n = 0 then 0 else Suc (bit_length (n div 2)))"

definition pow2 :: "int \<Rightarrow> rat" where
  "pow2 e = (if 0 \<le> e then 2 ^ nat e else 1 / 2 ^ nat (- e))"

text \<open>The binary exponent of a non-zero rational: \<open>pow2 e \<le> \<bar>q\<bar> < pow2 (e + 1)\<close>.\<close>

definition binary_exponent :: "rat \<Rightarrow> int" where
  "binary_exponent q =
     (let k = int (bit_length (nat (fst (quotient_of \<bar>q\<bar>))))
              - int (bit_length (nat (snd (quotient_of \<bar>q\<bar>))))
      in if pow2 k \<le> \<bar>q\<bar> then k else k - 1)"

definition round_half_even :: "rat \<Rightarrow> int" where
  "round_half_even x =
     (let f = \<lfloor>x\<rfloor>; r = x - of_int f in
      if r < 1 / 2 then f
      else if 1 / 2 < r then f + 1
      else if even f then f else f + 1)"

definition fl :: "rat \<Rightarrow> pyfloat" where
  "fl q =
     (if q = 0 then 0
      else let e = binary_exponent q - 52 in of_int (round_half_even (q / pow2 e)) * pow2 e)"

text \<open>\<open>a / b\<close> on two ints is the correctly rounded quotient, or \<open>ZeroDivisionError\<close>.\<close>

definition truediv :: "int \<Rightarrow> int \<Rightarrow> error + pyfloat" where
  "truediv a b = (if b = 0 then Inl ZeroDivisionError else Inr (fl (of_int a / of_int b)))"

text \<open>\<open>x * n\<close> and \<open>n * x\<close> for a float and a small int, which converts exactly.\<close>

definition fmul :: "pyfloat \<Rightarrow> pyfloat \<Rightarrow> pyfloat" where
  "fmul x y = fl (x * y)"

text \<open>\<open>int(x)\<close> on a float truncates towards zero.\<close>

definition int_of_float :: "pyfloat \<Rightarrow> int" where
  "int_of_float x = (if 0 \<le> x then \<lfloor>x\<rfloor> else \<lceil>x\<rceil>)"

fun decimal :: "nat \<Rightarrow> pystr" where
  "decimal n = (if n < 10 then [48 + n] else decimal (n div 10) @ [48 + n mod 10])"

text \<open>
  \<open>f'{x:.1f}'\<close>: the exact value of the float rounded to one decimal, ties to even.
\<close>

definition format_1f :: "pyfloat \<Rightarrow> pystr" where
  "format_1f x =
     (let tenths = nat (round_half_even (\<bar>x\<bar> * 10)) in
      (if x < 0 then [45] else []) @ decimal (tenths div 10) @ [46] @ decimal (tenths mod 10))"

subsection \<open>Statistics\<close>

record stats_report =
  total_shown :: int
  done_shown :: int
  done_percent :: pystr
  in_progress_shown :: int
  in_progress_percent :: pystr
  todo_shown :: int
  todo_percent :: pystr
  progress_value :: pyfloat
  filled_cells :: int
  bar_shown :: pystr
  progress_percent :: pystr

datatype stats_output = NoData | Report stats_report

text \<open>
  \<open>show_stats\<close>. With no tasks it reports that there is no data and returns. The
  percentages are the texts of \<open>f'{done/total*100:.1f}%'\<close>; the bar is \<open>filled\<close> full
  blocks (code point 9608) followed by light shades (9617).
\<close>

definition percent_text :: "pyfloat \<Rightarrow> pystr" where
  "percent_text ratio = format_1f (fmul ratio 100) @ [37]"

definition show_stats :: "TodoApp \<Rightarrow> error + stats_output" where
  "show_stats app =
     (let total = int (length (tasks app)) in
      if total = 0 then Inr NoData
      else
        let done = int (length (filter (\<lambda>t. status t = DONE) (tasks app)));
            in_progress = int (length (filter (\<lambda>t. status t = IN_PROGRESS) (tasks app)));
            todo = int (length (filter (\<lambda>t. status t = TODO) (tasks app)))
        in
        bind_err (truediv done total) (\<lambda>done_ratio.
        bind_err (truediv in_progress total) (\<lambda>in_progress_ratio.
        bind_err (truediv todo total) (\<lambda>todo_ratio.
        bind_err (if total > 0 then truediv done total else Inr 0) (\<lambda>progress.
          let bar_length = 30;
              filled = int_of_float (fmul bar_length progress);
              bar = replicate (nat filled) 9608 @ replicate (nat (30 - filled)) 9617
          in Inr (Report
               \<lparr> total_shown = total,
                 done_shown = done, done_percent = percent_text done_ratio,
                 in_progress_shown = in_progress,
                 in_progress_percent = percent_text in_progress_ratio,
                 todo_shown = todo, todo_percent = percent_text todo_ratio,
                 progress_value = progress, filled_cells = filled, bar_shown = bar,
                 progress_percent = percent_text progress \<rparr>))))))"

subsection \<open>Sequences of operations, and what the theorems observe\<close>

text \<open>
  The menu loop of \<open>run\<close> calls one method per choice. For the claims about ids only
  adding and deleting matter.
\<close>

datatype command = Add add_answers | Delete delete_answers

fun step :: "command \<Rightarrow> TodoApp \<Rightarrow> TodoApp \<times> message" where
  "step (Add a) app = add_task a app"
| "step (Delete d) app = delete_task d app"

fun run :: "command list \<Rightarrow> TodoApp \<Rightarrow> TodoApp" where
  "run [] app = app"
| "run (c # cs) app = run cs (fst (step c app))"

text \<open>The ids that the successful adds of a sequence gave to their new tasks, in order.\<close>

fun assigned_ids :: "command list \<Rightarrow> TodoApp \<Rightarrow> int list" where
  "assigned_ids [] app = []"
| "assigned_ids (c # cs) app =
     (case c of
        Add a \<Rightarrow>
          (if snd (step c app) = TaskAdded
           then id' (last (tasks (fst (step c app)))) # assigned_ids cs (fst (step c app))
           else assigned_ids cs (fst (step c app)))
      | Delete d \<Rightarrow> assigned_ids cs (fst (step c app)))"

text \<open>
  The invariant of the data model: ids are unique in the store, and the counter is
  above every id in use.
\<close>

definition store_inv :: "TodoApp \<Rightarrow> bool" where
  "store_inv app =
     (distinct (map id' (tasks app)) \<and> list_all (\<lambda>t. id' t < current_id app) (tasks app))"

definition report_of :: "error + stats_output \<Rightarrow> stats_report option" where
  "report_of out = (case out of Inr (Report r) \<Rightarrow> Some r | _ \<Rightarrow> None)"

definition tag_pairs :: "tags_output \<Rightarrow> (pystr \<times> nat) list" where
  "tag_pairs out = (case out of NoTags \<Rightarrow> [] | TagCounts ps \<Rightarrow> ps)"


subsection \<open>Concrete inputs\<close>

definition sample_task :: "int \<Rightarrow> Status \<Rightarrow> pystr list \<Rightarrow> Task" where
  "sample_task i st tgs =
     \<lparr> id' = i, title = ascii ''Email Alice'', description = [], priority = MEDIUM,
       status = st, created_at = ascii ''01.02.2024 10:30'', due_date = None, tags = tgs \<rparr>"

definition sample_store :: TodoApp where
  "sample_store =
     \<lparr> tasks = [sample_task 1 DONE [ascii ''work'', ascii ''home''],
                sample_task 2 TODO [ascii ''home'', ascii ''home'', ascii ''Home''],
                sample_task 3 CANCELLED []],
       current_id = 4 \<rparr>"

text \<open>A record whose priority label is none of the four.\<close>

definition bad_label_data :: task_data where
  "bad_label_data = (to_dict (sample_task 2 TODO []))\<lparr>priority_entry := Some (ascii ''High'')\<rparr>"

definition sample_add :: "pystr \<Rightarrow> add_answers" where
  "sample_add t =
     \<lparr> add_title = t, add_description = [], add_priority = ascii ''3'', add_due_date = [],
       add_tags = ascii ''work, home'', add_now = ascii ''01.02.2024 10:30'' \<rparr>"

definition sample_delete :: "pystr \<Rightarrow> delete_answers" where
  "sample_delete i = \<lparr> delete_id = i, delete_confirm = ascii ''y'' \<rparr>"

definition sample_edit :: "pystr \<Rightarrow> edit_answers" where
  "sample_edit st =
     \<lparr> edit_id = ascii ''2'', edit_title = ascii '' Call Bob '', edit_description = [],
       edit_status = st \<rparr>"

definition sample_commands :: "command list" where
  "sample_commands =
     [Add (sample_add (ascii ''Email Alice'')), Add (sample_add (ascii ''Call Bob'')),
      Delete (sample_delete (ascii ''1'')), Add (sample_add (ascii ''Pay rent''))]"

section \<open>Evaluation and helper lemmas\<close>

lemmas eval_defs = ascii_def strip_def isspace_def int_strip_def int_space_def py_int_def
  digit_val_def getitem_def
  bind_err_def choose_status_def choose_priority_def Status_list_def Priority_list_def
  find_task_def lower_is_y_def subscript_def get_default_def post_init_def to_dict_def
  task_of_data_def Priority_of_def Status_of_def new_app_def init_def load_tasks_def Let_def

lemmas sample_defs = sample_task_def sample_store_def sample_add_def sample_delete_def
  sample_edit_def bad_label_data_def sample_commands_def

subsection \<open>Decoding and the load loop\<close>

lemma Priority_of_value: "Priority_of (Priority_value p) = Inr p"
  by (cases p) (simp_all add: Priority_of_def Priority_list_def)

lemma Status_of_value: "Status_of (Status_value st) = Inr st"
  by (cases st) (simp_all add: Status_of_def Status_list_def)

lemma task_of_data_to_dict: "task_of_data (to_dict t) = Inr t"
  by (simp add: task_of_data_def to_dict_def bind_err_def subscript_def get_default_def
      post_init_def Priority_of_value Status_of_value)


lemma foldl_max_counter:
  "foldl (\<lambda>c t. max c (id' t + 1)) c ts = Max (insert c ((\<lambda>t. id' t + 1) ` set ts))"
proof (induction ts arbitrary: c)
  case Nil
  then show ?case by simp
next
  case (Cons t ts)
  show ?case
  proof (cases "ts = []")
    case True
    then show ?thesis by (simp add: max.commute)
  next
    case False
    then have ne: "(\<lambda>t. id' t + 1) ` set ts \<noteq> {}" by simp
    have fin: "finite ((\<lambda>t. id' t + 1) ` set ts)" by simp
    show ?thesis
      by (simp add: Cons.IH Max_insert[OF fin ne] max.assoc)
  qed
qed

lemma load_loop_all_decoded:
  "map task_of_data ds = map Inr ts \<Longrightarrow>
     load_loop ds app =
       (\<lparr>tasks = tasks app @ ts,
         current_id = foldl (\<lambda>c t. max c (id' t + 1)) (current_id app) ts\<rparr>, None)"
proof (induction ds arbitrary: app ts)
  case Nil
  then show ?case by simp
next
  case (Cons d ds)
  then obtain t ts' where ts: "ts = t # ts'" and d: "task_of_data d = Inr t"
    and rest: "map task_of_data ds = map Inr ts'"
    by (cases ts) auto
  have m: "(if current_id app \<le> id' t then id' t + 1 else current_id app)
             = max (current_id app) (id' t + 1)"
    by simp
  show ?case
    by (simp add: d ts Cons.IH[OF rest] Let_def m[symmetric])
qed

subsection \<open>Adding and deleting preserve the invariant\<close>

lemma find_task_None: "find_task k ts = None \<longleftrightarrow> k \<notin> id' ` set ts"
  by (auto simp: find_task_def find_None_iff)

lemma find_task_Some: "find_task k ts = Some t \<Longrightarrow> t \<in> set ts \<and> id' t = k"
  by (auto simp: find_task_def find_Some_iff)

lemma add_task_cases:
  "add_task a app = (app, TitleEmpty)
   \<or> (\<exists>t. id' t = current_id app
          \<and> add_task a app
              = (app\<lparr>tasks := tasks app @ [t], current_id := current_id app + 1\<rparr>, TaskAdded))"
proof -
  have "add_task a app = (app, TitleEmpty)
        \<or> (id' (last (tasks (fst (add_task a app)))) = current_id app
           \<and> add_task a app
               = (app\<lparr>tasks := tasks app @ [last (tasks (fst (add_task a app)))],
                       current_id := current_id app + 1\<rparr>, TaskAdded))"
    by (simp add: add_task_def Let_def)
  then show ?thesis by blast
qed

lemma distinct_map_remove1: "distinct (map f xs) \<Longrightarrow> distinct (map f (remove1 x xs))"
  by (induction xs) (auto dest: notin_set_remove1 [rotated] simp: image_iff)

lemma delete_task_cases:
  "(fst (delete_task d app) = app \<and> snd (delete_task d app) \<noteq> TaskDeleted)
   \<or> (\<exists>k t. py_int (delete_id d) = Inr k \<and> find_task k (tasks app) = Some t
          \<and> delete_task d app = (app\<lparr>tasks := remove1 t (tasks app)\<rparr>, TaskDeleted))"
  by (auto simp: delete_task_def split: sum.splits option.splits)

lemma store_inv_add:
  assumes "store_inv app" shows "store_inv (fst (add_task a app))"
proof -
  from assms have d: "distinct (map id' (tasks app))"
    and b: "\<And>u. u \<in> set (tasks app) \<Longrightarrow> id' u < current_id app"
    by (simp_all add: store_inv_def list_all_iff)
  from add_task_cases[of a app] show ?thesis
  proof
    assume "add_task a app = (app, TitleEmpty)"
    then show ?thesis using assms by simp
  next
    assume "\<exists>t. id' t = current_id app \<and> add_task a app
              = (app\<lparr>tasks := tasks app @ [t], current_id := current_id app + 1\<rparr>, TaskAdded)"
    then obtain t where t: "id' t = current_id app" and
      eq: "add_task a app = (app\<lparr>tasks := tasks app @ [t], current_id := current_id app + 1\<rparr>, TaskAdded)"
      by blast
    have "current_id app \<notin> id' ` set (tasks app)" using b by force
    moreover have "\<And>u. u \<in> set (tasks app) \<Longrightarrow> id' u < current_id app + 1"
      using b by force
    ultimately show ?thesis using d t by (simp add: eq store_inv_def list_all_iff)
  qed
qed

lemma store_inv_delete:
  assumes "store_inv app" shows "store_inv (fst (delete_task d app))"
  using delete_task_cases[of d app] assms
  by (auto simp: store_inv_def list_all_iff distinct_map_remove1 dest: set_mp [OF set_remove1_subset])

lemma store_inv_step: "store_inv app \<Longrightarrow> store_inv (fst (step c app))"
  by (cases c) (simp_all add: store_inv_add store_inv_delete)

lemma store_inv_run: "store_inv app \<Longrightarrow> store_inv (run cs app)"
  by (induction cs arbitrary: app) (simp_all add: store_inv_step)

lemma current_id_step: "current_id app \<le> current_id (fst (step c app))"
proof (cases c)
  case (Add a)
  then show ?thesis using add_task_cases[of a app] by auto
next
  case (Delete d)
  then show ?thesis using delete_task_cases[of d app] by auto
qed

lemma assigned_ids_bounds:
  "sorted_wrt (<) (assigned_ids cs app) \<and> (\<forall>i \<in> set (assigned_ids cs app). current_id app \<le> i)"
proof (induction cs arbitrary: app)
  case Nil
  then show ?case by simp
next
  case (Cons c cs)
  let ?app' = "fst (step c app)"
  have IH: "sorted_wrt (<) (assigned_ids cs ?app')"
    "\<forall>i \<in> set (assigned_ids cs ?app'). current_id ?app' \<le> i"
    using Cons.IH[of ?app'] by simp_all
  show ?case
  proof (cases c)
    case (Add a)
    from add_task_cases[of a app] show ?thesis
    proof
      assume "add_task a app = (app, TitleEmpty)"
      then show ?thesis using IH Add by simp
    next
      assume "\<exists>t. id' t = current_id app \<and> add_task a app
              = (app\<lparr>tasks := tasks app @ [t], current_id := current_id app + 1\<rparr>, TaskAdded)"
      then obtain t where t: "id' t = current_id app" and
        eq: "add_task a app = (app\<lparr>tasks := tasks app @ [t], current_id := current_id app + 1\<rparr>, TaskAdded)"
        by blast
      then show ?thesis using IH Add by (auto simp: eq)
    qed
  next
    case (Delete d)
    then show ?thesis using IH current_id_step[of app c] by auto
  qed
qed

lemma ids_after_run:
  "id' ` set (tasks (run cs app)) \<subseteq> id' ` set (tasks app) \<union> set (assigned_ids cs app)"
proof (induction cs arbitrary: app)
  case Nil
  then show ?case by simp
next
  case (Cons c cs)
  let ?app' = "fst (step c app)"
  note IH = Cons.IH[of ?app']
  show ?case
  proof (cases c)
    case (Add a)
    from add_task_cases[of a app] show ?thesis
    proof
      assume "add_task a app = (app, TitleEmpty)"
      then show ?thesis using IH Add by simp
    next
      assume "\<exists>t. id' t = current_id app \<and> add_task a app
              = (app\<lparr>tasks := tasks app @ [t], current_id := current_id app + 1\<rparr>, TaskAdded)"
      then obtain t where t: "id' t = current_id app" and
        eq: "add_task a app = (app\<lparr>tasks := tasks app @ [t], current_id := current_id app + 1\<rparr>, TaskAdded)"
        by blast
      then show ?thesis using IH Add by (auto simp: eq)
    qed
  next
    case (Delete d)
    have "set (tasks ?app') \<subseteq> set (tasks app)"
      using delete_task_cases[of d app] Delete by (auto dest: set_mp [OF set_remove1_subset])
    then have "id' ` set (tasks ?app') \<subseteq> id' ` set (tasks app)" by (rule image_mono)
    moreover have "run (c # cs) app = run cs ?app'" by simp
    moreover have "assigned_ids (c # cs) app = assigned_ids cs ?app'" using Delete by simp
    ultimately show ?thesis using IH by (simp only:) blast
  qed
qed

subsection \<open>Editing in place\<close>



text \<open>
  Which numbers select a status: \<open>list(Status)[n - 1]\<close> succeeds for \<open>n\<close> from -3 to 4,
  since an index from -4 to -1 counts from the end of the list.
\<close>

lemma choose_status_range:
  "py_int s = Inr n \<Longrightarrow>
     choose_status s = (if 1 \<le> n \<and> n \<le> 4 then Inr (Status_list ! nat (n - 1))
                        else if - 3 \<le> n \<and> n \<le> 0 then Inr (Status_list ! nat (n + 3))
                        else Inl IndexError)"
  by (auto simp: choose_status_def bind_err_def getitem_def Status_list_def Let_def
           intro!: arg_cong[where f = "\<lambda>i. [TODO, IN_PROGRESS, DONE, CANCELLED] ! i"])

subsection \<open>Tags\<close>

lemma fold_all_tags:
  "fold (\<lambda>task acc. acc \<union> set (tags task)) ts A = A \<union> (\<Union>t \<in> set ts. set (tags t))"
  by (induction ts arbitrary: A) auto

lemma manage_tags_sample:
  "manage_tags sample_store
     = TagCounts [(ascii ''Home'', 1), (ascii ''home'', 2), (ascii ''work'', 1)]"
proof -
  have all_tags: "fold (\<lambda>task acc. acc \<union> set (tags task)) (tasks sample_store) {}
                    = set [ascii ''Home'', ascii ''home'', ascii ''work'']"
    by (auto simp: sample_defs)
  have srt: "sorted_list_of_set (set [ascii ''Home'', ascii ''home'', ascii ''work''])
               = [ascii ''Home'', ascii ''home'', ascii ''work'']"
    by (rule sorted_list_of_set.idem_if_sorted_distinct) (simp_all add: ascii_def)
  have ne: "set [ascii ''Home'', ascii ''home'', ascii ''work''] \<noteq> {}" by simp
  show ?thesis
    unfolding manage_tags_def Let_def all_tags srt if_not_P[OF ne]
    by (simp add: sample_defs ascii_def)
qed

subsection \<open>Rounding and the statistics\<close>

lemma pow2_powi: "pow2 e = 2 powi e"
  by (simp add: pow2_def power_int_def inverse_eq_divide power_one_over)

lemma pow2_pos: "0 < pow2 e"
  by (simp add: pow2_def)

lemma pow2_mono: "a \<le> b \<Longrightarrow> pow2 a \<le> pow2 b"
  by (simp add: pow2_powi power_int_increasing)

lemma pow2_diff: "pow2 (int a - int b) = 2 ^ a / 2 ^ b"
  by (simp add: pow2_powi power_int_diff)

lemma bit_length_pos: "0 < n \<Longrightarrow> 0 < bit_length n"
  by (subst bit_length.simps) simp

lemma bit_length_bounds:
  "0 < n \<Longrightarrow> 2 ^ (bit_length n - 1) \<le> n \<and> n < 2 ^ bit_length n"
proof (induction n rule: bit_length.induct)
  case (1 n)
  show ?case
  proof (cases "n div 2 = 0")
    case True
    with "1.prems" have "n = 1" by (simp add: div_eq_0_iff)
    then show ?thesis by simp
  next
    case False
    then have pos: "0 < n div 2" by simp
    from "1.prems" have n0: "n \<noteq> 0" by simp
    from "1.IH"[OF n0 pos] have lo: "2 ^ (bit_length (n div 2) - 1) \<le> n div 2"
      and hi: "n div 2 < 2 ^ bit_length (n div 2)" by simp_all
    have bl: "bit_length n = Suc (bit_length (n div 2))" using n0 by simp
    have blpos: "0 < bit_length (n div 2)" using pos by (rule bit_length_pos)
    have "2 ^ (bit_length n - 1) = 2 * 2 ^ (bit_length (n div 2) - 1)"
      using bl blpos by (cases "bit_length (n div 2)") simp_all
    also have "\<dots> \<le> 2 * (n div 2)" using lo by simp
    also have "\<dots> \<le> n" by simp
    finally have a: "2 ^ (bit_length n - 1) \<le> n" .
    have "n < 2 * (n div 2) + 2" by presburger
    also have "\<dots> \<le> 2 * 2 ^ bit_length (n div 2)" using hi by simp
    finally have b: "n < 2 ^ bit_length n" using bl by simp
    from a b show ?thesis by simp
  qed
qed

lemma bit_length_rat:
  assumes "0 < a"
  shows "(2::rat) ^ (bit_length (nat a) - 1) \<le> of_int a" and "(of_int a :: rat) < 2 ^ bit_length (nat a)"
proof -
  from assms have n: "0 < nat a" by simp
  from bit_length_bounds[OF n] have lo: "2 ^ (bit_length (nat a) - 1) \<le> nat a"
    and hi: "nat a < 2 ^ bit_length (nat a)" by simp_all
  have "(of_nat (2 ^ (bit_length (nat a) - 1)) :: rat) \<le> of_nat (nat a)"
    using lo by (simp only: of_nat_le_iff)
  then show "(2::rat) ^ (bit_length (nat a) - 1) \<le> of_int a" using assms by simp
  have "(of_nat (nat a) :: rat) < of_nat (2 ^ bit_length (nat a))"
    using hi by (simp only: of_nat_less_iff)
  then show "(of_int a :: rat) < 2 ^ bit_length (nat a)" using assms by simp
qed

lemma binary_exponent_bounds:
  assumes "q \<noteq> 0"
  shows "pow2 (binary_exponent q) \<le> \<bar>q\<bar> \<and> \<bar>q\<bar> < pow2 (binary_exponent q + 1)"
proof -
  obtain a b where ab: "quotient_of \<bar>q\<bar> = (a, b)" by (cases "quotient_of \<bar>q\<bar>")
  from assms have qpos: "0 < \<bar>q\<bar>" by simp
  have bpos: "0 < b" using ab by (rule quotient_of_denom_pos)
  have qeq: "\<bar>q\<bar> = of_int a / of_int b" using ab by (rule quotient_of_div)
  have apos: "0 < a" using qpos bpos qeq by (simp add: zero_less_divide_iff)
  define la where "la = bit_length (nat a)"
  define lb where "lb = bit_length (nat b)"
  define k where "k = int la - int lb"
  have lapos: "0 < la" and lbpos: "0 < lb"
    using bit_length_pos[of "nat a"] bit_length_pos[of "nat b"] apos bpos
    by (simp_all add: la_def lb_def)
  note ra = bit_length_rat[OF apos, folded la_def]
  note rb = bit_length_rat[OF bpos, folded lb_def]
  have rbpos: "(0::rat) < of_int b" using bpos by simp
  have rapos: "(0::rat) < of_int a" using apos by simp
  have up: "\<bar>q\<bar> < pow2 (k + 1)"
  proof -
    have "\<bar>q\<bar> < 2 ^ la / of_int b"
      unfolding qeq using ra(2) rbpos by (simp add: divide_strict_right_mono)
    also have "\<dots> \<le> 2 ^ la / 2 ^ (lb - 1)" using rb(1) by (simp add: frac_le)
    also have "\<dots> = pow2 (int la - int (lb - 1))" by (simp only: pow2_diff)
    also have "int la - int (lb - 1) = k + 1" using lbpos by (simp add: k_def)
    finally show ?thesis .
  qed
  have low: "pow2 (k - 1) \<le> \<bar>q\<bar>"
  proof -
    have "k - 1 = int (la - 1) - int lb" using lapos by (simp add: k_def of_nat_diff)
    then have "pow2 (k - 1) = pow2 (int (la - 1) - int lb)" by simp
    also have "\<dots> = 2 ^ (la - 1) / 2 ^ lb" by (simp only: pow2_diff)
    also have "\<dots> \<le> of_int a / 2 ^ lb" using ra(1) by (simp add: divide_right_mono)
    also have "\<dots> \<le> of_int a / of_int b" using rb(2) rbpos rapos by (simp add: frac_le)
    finally show ?thesis unfolding qeq .
  qed
  have be: "binary_exponent q = (if pow2 k \<le> \<bar>q\<bar> then k else k - 1)"
    by (simp add: binary_exponent_def ab la_def lb_def k_def Let_def)
  show ?thesis
  proof (cases "pow2 k \<le> \<bar>q\<bar>")
    case True
    then show ?thesis using be up by simp
  next
    case False
    then show ?thesis using be low by simp
  qed
qed

lemma binary_exponent_unique:
  assumes "pow2 e \<le> \<bar>q\<bar>" and "\<bar>q\<bar> < pow2 (e + 1)"
  shows "binary_exponent q = e"
proof -
  have "q \<noteq> 0" using assms(1) pow2_pos[of e] by auto
  from binary_exponent_bounds[OF this]
  have b: "pow2 (binary_exponent q) \<le> \<bar>q\<bar>" "\<bar>q\<bar> < pow2 (binary_exponent q + 1)" by simp_all
  have "pow2 e < pow2 (binary_exponent q + 1)" using assms(1) b(2) by simp
  then have 1: "e < binary_exponent q + 1"
    using pow2_mono[of "binary_exponent q + 1" e] by (cases "e < binary_exponent q + 1") auto
  have "pow2 (binary_exponent q) < pow2 (e + 1)" using assms(2) b(1) by simp
  then have 2: "binary_exponent q < e + 1"
    using pow2_mono[of "e + 1" "binary_exponent q"] by (cases "binary_exponent q < e + 1") auto
  from 1 2 show ?thesis by simp
qed

text \<open>
  \<open>fl\<close> is rounding to 53 significant bits: for \<open>\<bar>q\<bar>\<close> in the binade of \<open>pow2 e\<close>
  the result is the multiple of \<open>pow2 (e - 52)\<close> nearest to \<open>q\<close>.
\<close>

lemma fl_eq:
  assumes "pow2 e \<le> \<bar>q\<bar>" and "\<bar>q\<bar> < pow2 (e + 1)"
  shows "fl q = of_int (round_half_even (q / pow2 (e - 52))) * pow2 (e - 52)"
proof -
  have "q \<noteq> 0" using assms(1) pow2_pos[of e] by auto
  then show ?thesis by (simp add: fl_def binary_exponent_unique[OF assms] Let_def)
qed

lemma round_half_even_near:
  assumes "of_int n - 1 / 2 < x" and "x < of_int n + 1 / 2"
  shows "round_half_even x = n"
proof (cases "of_int n \<le> x")
  case True
  then have "\<lfloor>x\<rfloor> = n" using assms(2) by (intro floor_unique) simp_all
  then show ?thesis using assms(2) by (simp add: round_half_even_def Let_def)
next
  case False
  then have "\<lfloor>x\<rfloor> = n - 1" using assms(1) by (intro floor_unique) simp_all
  then show ?thesis using assms(1) by (simp add: round_half_even_def Let_def)
qed

lemma fl_third: "fl (1 / 3) = 6004799503160661 / 18014398509481984"
proof -
  have "round_half_even ((1 / 3) / pow2 (- 2 - 52)) = 6004799503160661"
    by (rule round_half_even_near) (simp_all add: pow2_def)
  then show ?thesis
    using fl_eq[of "- 2" "1 / 3"] by (simp add: pow2_def)
qed

lemma fmul_30_third: "fmul 30 (6004799503160661 / 18014398509481984) = 10"
proof -
  have "round_half_even ((30 * (6004799503160661 / 18014398509481984)) / pow2 (3 - 52))
          = 5629499534213120"
    by (rule round_half_even_near) (simp_all add: pow2_def)
  then show ?thesis
    using fl_eq[of 3 "30 * (6004799503160661 / 18014398509481984)"]
    by (simp add: pow2_def fmul_def)
qed

lemma fmul_third_100:
  "fmul (6004799503160661 / 18014398509481984) 100 = 2345624805922133 / 70368744177664"
proof -
  have "round_half_even (((6004799503160661 / 18014398509481984) * 100) / pow2 (5 - 52))
          = 4691249611844266"
    by (rule round_half_even_near) (simp_all add: pow2_def)
  then show ?thesis
    using fl_eq[of 5 "(6004799503160661 / 18014398509481984) * 100"]
    by (simp add: pow2_def fmul_def)
qed

lemma percent_text_third:
  "percent_text (6004799503160661 / 18014398509481984) = ascii ''33.3%''"
proof -
  have "round_half_even (\<bar>2345624805922133 / 70368744177664\<bar> * 10) = 333"
    by (rule round_half_even_near) simp_all
  moreover have "decimal 33 = [51, 51]" by (subst decimal.simps) simp
  ultimately show ?thesis
    by (simp add: percent_text_def fmul_third_100 format_1f_def Let_def ascii_def)
qed

lemma show_stats_no_error: "show_stats app \<noteq> Inl e"
  by (simp add: show_stats_def truediv_def bind_err_def Let_def)

lemma one_done_of_three_report:
  assumes "length (tasks app) = 3"
    and "length (filter (\<lambda>t. status t = DONE) (tasks app)) = 1"
  shows "\<exists>r. show_stats app = Inr (Report r)
           \<and> total_shown r = 3 \<and> done_shown r = 1
           \<and> done_percent r = ascii ''33.3%''
           \<and> progress_value r = 6004799503160661 / 18014398509481984
           \<and> filled_cells r = 10
           \<and> bar_shown r = replicate 10 9608 @ replicate 20 9617"
  using assms
  by (simp add: show_stats_def Let_def bind_err_def truediv_def fl_third
        percent_text_third fmul_30_third int_of_float_def)

section \<open>The claims\<close>

subsection \<open>Loading and saving\<close>






text \<open>
  Claim C6. When every record of the file decodes and the ids are not negative (the
  data model has them positive), \<open>__init__\<close> leaves the counter at 1 plus the largest
  id, or at 1 for an empty array, and the next task added gets that id.
\<close>

theorem load_sets_next_id:
  assumes "map task_of_data ds = map Inr ts" and "\<forall>t \<in> set ts. 0 \<le> id' t"
  shows "init (Document ds)
           = (\<lparr>tasks = ts, current_id = (if ts = [] then 1 else 1 + Max (id' ` set ts))\<rparr>, None)
         \<and> (strip (add_title a) \<noteq> [] \<longrightarrow>
              id' (last (tasks (fst (add_task a (fst (init (Document ds)))))))
                = (if ts = [] then 1 else 1 + Max (id' ` set ts)))"
proof -
  let ?n = "if ts = [] then 1 else 1 + Max (id' ` set ts)"
  have cnt: "foldl (\<lambda>c t. max c (id' t + 1)) 1 ts = ?n"
  proof (cases "ts = []")
    case True
    then show ?thesis by simp
  next
    case False
    then have ne: "(\<lambda>t. id' t + 1) ` set ts \<noteq> {}" and ne': "id' ` set ts \<noteq> {}" by simp_all
    have fin: "finite ((\<lambda>t. id' t + 1) ` set ts)" "finite (id' ` set ts)" by simp_all
    have "(\<lambda>t. id' t + 1) ` set ts = (\<lambda>i. i + 1) ` (id' ` set ts)" by (simp add: image_image)
    then have "Max ((\<lambda>t. id' t + 1) ` set ts) = Max (id' ` set ts) + 1"
      using mono_Max_commute[of "\<lambda>i::int. i + 1" "id' ` set ts"] fin(2) ne'
      by (simp add: mono_def)
    moreover have "0 \<le> Max (id' ` set ts)"
      using assms(2) fin(2) ne' False by (cases ts) (auto simp: Max_ge_iff)
    ultimately show ?thesis using False
      by (simp add: foldl_max_counter Max_insert[OF fin(1) ne])
  qed
  have ld: "init (Document ds) = (\<lparr>tasks = ts, current_id = ?n\<rparr>, None)"
    using load_loop_all_decoded[OF assms(1), of new_app] cnt
    by (simp add: init_def load_tasks_def new_app_def)
  show ?thesis
    by (simp only: ld) (simp add: add_task_def Let_def)
qed

theorem load_sets_next_id_witness:
  "map task_of_data [to_dict (sample_task 5 DONE []), to_dict (sample_task 2 TODO [])]
     = map Inr [sample_task 5 DONE [], sample_task 2 TODO []]
   \<and> 0 \<le> id' (sample_task 5 DONE []) \<and> 0 \<le> id' (sample_task 2 TODO [])
   \<and> init (Document [to_dict (sample_task 5 DONE []), to_dict (sample_task 2 TODO [])])
       = (\<lparr>tasks = [sample_task 5 DONE [], sample_task 2 TODO []], current_id = 6\<rparr>, None)
   \<and> id' (last (tasks (fst (add_task (sample_add (ascii ''Call Bob''))
         (fst (init (Document [to_dict (sample_task 5 DONE []), to_dict (sample_task 2 TODO [])])))))))
       = 6"
proof -
  have h1: "map task_of_data [to_dict (sample_task 5 DONE []), to_dict (sample_task 2 TODO [])]
              = map Inr [sample_task 5 DONE [], sample_task 2 TODO []]"
    by (simp add: task_of_data_to_dict)
  have h2: "\<forall>t \<in> set [sample_task 5 DONE [], sample_task 2 TODO []]. 0 \<le> id' t"
    by (simp add: sample_task_def)
  have h3: "strip (add_title (sample_add (ascii ''Call Bob''))) \<noteq> []"
    by (simp add: eval_defs sample_defs)
  have n: "(if [sample_task 5 DONE [], sample_task 2 TODO []] = [] then 1
            else 1 + Max (id' ` set [sample_task 5 DONE [], sample_task 2 TODO []])) = 6"
    by (simp add: sample_task_def)
  note r = load_sets_next_id [OF h1 h2, of "sample_add (ascii ''Call Bob'')", unfolded n]
  have h2': "0 \<le> id' (sample_task 5 DONE [])" "0 \<le> id' (sample_task 2 TODO [])"
    by (simp_all add: sample_task_def)
  show ?thesis
    by (intro conjI h1 h2' r [THEN conjunct1] r [THEN conjunct2, rule_format, OF h3])
qed

subsection \<open>Adding\<close>

text \<open>
  Claim C3. When the title is empty after \<open>strip()\<close>, \<open>add_task\<close> reports that the title
  must not be empty (the validation error of the specification) and returns the
  application as it was: same tasks, same counter.
\<close>

theorem add_task_empty_title:
  "strip (add_title a) = [] \<Longrightarrow> add_task a app = (app, TitleEmpty)"
  by (simp add: add_task_def)

theorem add_task_empty_title_witness:
  "strip (add_title (sample_add [32, 9, 160])) = []
   \<and> add_task (sample_add [32, 9, 160]) sample_store = (sample_store, TitleEmpty)"
proof -
  have h: "strip (add_title (sample_add [32, 9, 160])) = []"
    by (simp add: eval_defs sample_defs)
  show ?thesis using h add_task_empty_title [OF h, of sample_store] by simp
qed

text \<open>
  Claim C4. Start from a store that satisfies the invariant of the data model (unique
  ids, counter above every id), for instance the empty store. For every sequence of
  adds and deletes: the ids given by the adds are strictly increasing, hence unique;
  the ids in the store stay unique; and when a delete removes the task with id \<open>k\<close>,
  looking up \<open>k\<close> fails right away and after any further operations, and no later add
  gets \<open>k\<close>.
\<close>

theorem add_ids_increase_and_are_not_reused:
  assumes "store_inv app"
  shows "sorted_wrt (<) (assigned_ids cs app)
         \<and> distinct (map id' (tasks (run cs app)))
         \<and> (\<forall>pre d post app' k.
               cs = pre @ Delete d # post
               \<and> step (Delete d) (run pre app) = (app', TaskDeleted)
               \<and> py_int (delete_id d) = Inr k
               \<longrightarrow> find_task k (tasks app') = None
                   \<and> k \<notin> set (assigned_ids post app')
                   \<and> find_task k (tasks (run post app')) = None)"
proof (intro conjI allI impI)
  show "sorted_wrt (<) (assigned_ids cs app)" using assigned_ids_bounds by blast
  show "distinct (map id' (tasks (run cs app)))"
    using store_inv_run[OF assms, of cs] by (simp add: store_inv_def)
next
  fix pre d post app' k
  assume h: "cs = pre @ Delete d # post
               \<and> step (Delete d) (run pre app) = (app', TaskDeleted)
               \<and> py_int (delete_id d) = Inr k"
  let ?s = "run pre app"
  have inv: "store_inv ?s" using assms by (rule store_inv_run)
  from h have del: "delete_task d ?s = (app', TaskDeleted)" and k: "py_int (delete_id d) = Inr k"
    by simp_all
  from delete_task_cases[of d ?s] del k obtain t where
    t: "find_task k (tasks ?s) = Some t" and app': "app' = ?s\<lparr>tasks := remove1 t (tasks ?s)\<rparr>"
    by auto
  from find_task_Some[OF t] have tin: "t \<in> set (tasks ?s)" and tid: "id' t = k" by simp_all
  have dist: "distinct (map id' (tasks ?s))" and below: "\<forall>u \<in> set (tasks ?s). id' u < current_id ?s"
    using inv by (simp_all add: store_inv_def list_all_iff)
  have distt: "distinct (tasks ?s)" using dist by (simp add: distinct_map)
  have gone: "k \<notin> id' ` set (tasks app')"
  proof
    assume "k \<in> id' ` set (tasks app')"
    then obtain u where u: "u \<in> set (tasks ?s)" "u \<noteq> t" "id' u = k"
      using distt by (auto simp: app')
    with tin tid dist show False by (auto simp: distinct_map inj_on_def)
  qed
  have klt: "k < current_id app'" using below tin tid by (auto simp: app')
  have fresh: "k \<notin> set (assigned_ids post app')"
    using assigned_ids_bounds[of post app'] klt by auto
  show "find_task k (tasks app') = None" using gone by (simp add: find_task_None)
  show "k \<notin> set (assigned_ids post app')" by (rule fresh)
  show "find_task k (tasks (run post app')) = None"
    using ids_after_run[of post app'] gone fresh by (auto simp: find_task_None)
qed

theorem add_ids_increase_and_are_not_reused_witness:
  "store_inv new_app
   \<and> assigned_ids sample_commands new_app = [1, 2, 3]
   \<and> sorted_wrt (<) (assigned_ids sample_commands new_app)
   \<and> find_task 1 (tasks (fst (step (Delete (sample_delete (ascii ''1'')))
         (run [Add (sample_add (ascii ''Email Alice'')), Add (sample_add (ascii ''Call Bob''))]
            new_app)))) = None
   \<and> 1 \<notin> set (assigned_ids [Add (sample_add (ascii ''Pay rent''))]
         (fst (step (Delete (sample_delete (ascii ''1'')))
            (run [Add (sample_add (ascii ''Email Alice'')), Add (sample_add (ascii ''Call Bob''))]
               new_app))))
   \<and> find_task 1 (tasks (run [Add (sample_add (ascii ''Pay rent''))]
         (fst (step (Delete (sample_delete (ascii ''1'')))
            (run [Add (sample_add (ascii ''Email Alice'')), Add (sample_add (ascii ''Call Bob''))]
               new_app))))) = None"
proof -
  let ?pre = "[Add (sample_add (ascii ''Email Alice'')), Add (sample_add (ascii ''Call Bob''))]"
  let ?d = "sample_delete (ascii ''1'')"
  let ?post = "[Add (sample_add (ascii ''Pay rent''))]"
  let ?app' = "fst (step (Delete ?d) (run ?pre new_app))"
  have inv: "store_inv new_app" by (simp add: store_inv_def new_app_def)
  have ids: "assigned_ids sample_commands new_app = [1, 2, 3]"
    by (simp add: eval_defs sample_defs add_task_def delete_task_def)
  have parts: "sample_commands = ?pre @ Delete ?d # ?post"
    by (simp add: sample_commands_def)
  have "snd (step (Delete ?d) (run ?pre new_app)) = TaskDeleted"
    by (simp add: eval_defs sample_defs add_task_def delete_task_def)
  then have del: "step (Delete ?d) (run ?pre new_app) = (?app', TaskDeleted)"
    by (simp add: prod_eq_iff)
  have k: "py_int (delete_id ?d) = Inr 1"
    by (simp add: eval_defs sample_defs)
  note r = add_ids_increase_and_are_not_reused [OF inv, of sample_commands]
  note gone = r [THEN conjunct2, THEN conjunct2, rule_format, OF conjI [OF parts conjI [OF del k]]]
  show ?thesis
    by (intro conjI inv ids r [THEN conjunct1] gone [THEN conjunct1]
          gone [THEN conjunct2, THEN conjunct1] gone [THEN conjunct2, THEN conjunct2])
qed

subsection \<open>Editing\<close>



text \<open>
  Claim C10 holds for text that is not a number and for numbers below -3 or above 4,
  but not for every number outside 1-4, the range the prompt announces: the
  selections 0, -1, -2 and -3 index the list of statuses from its end. Here the answer
  \<open>0\<close> turns the status of task 2 from "to do" into "cancelled".
\<close>

theorem edit_status_zero_selects_cancelled:
  "map status (tasks sample_store) = [DONE, TODO, CANCELLED]
   \<and> choose_status (ascii ''0'') = Inr CANCELLED
   \<and> map status (tasks (fst (edit_task (sample_edit (ascii ''0'')) sample_store)))
       = [DONE, CANCELLED, CANCELLED]
   \<and> snd (edit_task (sample_edit (ascii ''0'')) sample_store) = TaskUpdated"
  by (simp add: eval_defs sample_defs edit_task_def)

subsection \<open>Tags\<close>

text \<open>
  Claim C8. \<open>manage_tags\<close> lists exactly the tag strings that occur in some task, in
  strictly ascending lexicographic order of their code points (so each string once,
  compared exactly), and pairs each tag with the number of tasks whose tag list
  contains it: positions of the task list are counted, so a task that carries the tag
  twice counts once.
\<close>

theorem manage_tags_sorted_counts:
  "set (map fst (tag_pairs (manage_tags app))) = (\<Union>t \<in> set (tasks app). set (tags t))
   \<and> sorted_wrt (<) (map fst (tag_pairs (manage_tags app)))
   \<and> (\<forall>(tag, n) \<in> set (tag_pairs (manage_tags app)).
         n = card {i. i < length (tasks app) \<and> tag \<in> set (tags (tasks app ! i))})"
proof -
  let ?A = "\<Union>t \<in> set (tasks app). set (tags t)"
  let ?cnt = "\<lambda>tag. length (filter (\<lambda>t. tag \<in> set (tags t)) (tasks app))"
  have fin: "finite ?A" by simp
  have pairs: "tag_pairs (manage_tags app) = map (\<lambda>tag. (tag, ?cnt tag)) (sorted_list_of_set ?A)"
    by (simp add: manage_tags_def tag_pairs_def fold_all_tags Let_def)
  have fsts: "map fst (tag_pairs (manage_tags app)) = sorted_list_of_set ?A"
    by (simp add: pairs comp_def)
  have c: "?cnt tag = card {i. i < length (tasks app) \<and> tag \<in> set (tags (tasks app ! i))}" for tag
    by (rule length_filter_conv_card)
  have "\<forall>(tag, n) \<in> set (tag_pairs (manage_tags app)).
          n = card {i. i < length (tasks app) \<and> tag \<in> set (tags (tasks app ! i))}"
    by (auto simp: pairs c)
  moreover have "set (sorted_list_of_set ?A) = ?A" using fin by simp
  moreover have "sorted_wrt (<) (sorted_list_of_set ?A)" by simp
  ultimately show ?thesis unfolding fsts by blast
qed

theorem manage_tags_sorted_counts_witness:
  "tag_pairs (manage_tags sample_store)
     = [(ascii ''Home'', 1), (ascii ''home'', 2), (ascii ''work'', 1)]
   \<and> (ascii ''home'', 2) \<in> set (tag_pairs (manage_tags sample_store))
   \<and> (2::nat) = card {i. i < length (tasks sample_store)
                          \<and> ascii ''home'' \<in> set (tags (tasks sample_store ! i))}"
proof -
  have h: "tag_pairs (manage_tags sample_store)
             = [(ascii ''Home'', 1), (ascii ''home'', 2), (ascii ''work'', 1)]"
    by (simp add: manage_tags_sample tag_pairs_def)
  have m: "(ascii ''home'', 2) \<in> set (tag_pairs (manage_tags sample_store))"
    by (simp add: h)
  from manage_tags_sorted_counts [of sample_store, THEN conjunct2, THEN conjunct2, rule_format, OF m]
  have "(2::nat) = card {i. i < length (tasks sample_store)
                          \<and> ascii ''home'' \<in> set (tags (tasks sample_store ! i))}"
    by simp
  with h m show ?thesis by blast
qed

subsection \<open>Statistics\<close>

text \<open>
  Claim C5, as amended. On a store without tasks \<open>show_stats\<close> reports that there is no
  data for statistics and returns at once: it shows no total, no percentage and no
  progress value, and it performs no division, so no division by zero can occur.
\<close>

theorem stats_empty_reports_no_data:
  assumes "tasks app = []"
  shows "show_stats app = Inr NoData \<and> report_of (show_stats app) = None
         \<and> show_stats app \<noteq> Inl ZeroDivisionError"
  using assms by (simp add: show_stats_def report_of_def)

theorem stats_empty_reports_no_data_witness:
  "tasks \<lparr>tasks = [], current_id = 4\<rparr> = []
   \<and> show_stats \<lparr>tasks = [], current_id = 4\<rparr> = Inr NoData
   \<and> report_of (show_stats \<lparr>tasks = [], current_id = 4\<rparr>) = None"
proof -
  have h: "tasks \<lparr>tasks = [], current_id = 4\<rparr> = []" by simp
  note r = stats_empty_reports_no_data [OF h]
  show ?thesis by (intro conjI h r [THEN conjunct1] r [THEN conjunct2, THEN conjunct1])
qed

text \<open>
  Claim C5 as stated fails: on the empty store of a first run there is no report that
  could carry a total of 0, percentages of 0 and a progress of 0.
\<close>

theorem stats_empty_counterexample:
  "show_stats new_app = Inr NoData \<and> report_of (show_stats new_app) = None"
  by (simp add: show_stats_def report_of_def new_app_def)

text \<open>
  Claim C9, as amended. With three tasks of which exactly one is done, \<open>show_stats\<close>
  shows the done percentage "33.3%", the progress value is the float nearest to 1/3
  (within 0.001 of 0.333), and the bar has \<open>int(30 * progress)\<close> = 10 filled cells out
  of 30, the filled cells first: in floating point 30 times that float is exactly 10.
\<close>

theorem stats_one_of_three:
  assumes "length (tasks app) = 3"
    and "length (filter (\<lambda>t. status t = DONE) (tasks app)) = 1"
  shows "\<exists>r. show_stats app = Inr (Report r)
           \<and> done_percent r = ascii ''33.3%''
           \<and> \<bar>progress_value r - 333 / 1000\<bar> < 1 / 1000
           \<and> filled_cells r = 10
           \<and> bar_shown r = replicate 10 9608 @ replicate 20 9617"
proof -
  from one_done_of_three_report[OF assms] obtain r where
    r: "show_stats app = Inr (Report r)" "done_percent r = ascii ''33.3%''"
       "progress_value r = 6004799503160661 / 18014398509481984"
       "filled_cells r = 10" "bar_shown r = replicate 10 9608 @ replicate 20 9617"
    by blast
  have "\<bar>progress_value r - 333 / 1000\<bar> < 1 / 1000" by (simp add: r(3))
  with r show ?thesis by blast
qed

theorem stats_one_of_three_witness:
  "length (tasks \<lparr>tasks = [sample_task 1 TODO [], sample_task 2 DONE [],
                           sample_task 3 IN_PROGRESS []], current_id = 4\<rparr>) = 3
   \<and> length (filter (\<lambda>t. status t = DONE)
        (tasks \<lparr>tasks = [sample_task 1 TODO [], sample_task 2 DONE [],
                          sample_task 3 IN_PROGRESS []], current_id = 4\<rparr>)) = 1
   \<and> (\<exists>r. show_stats \<lparr>tasks = [sample_task 1 TODO [], sample_task 2 DONE [],
                                 sample_task 3 IN_PROGRESS []], current_id = 4\<rparr>
              = Inr (Report r)
          \<and> done_percent r = ascii ''33.3%''
          \<and> \<bar>progress_value r - 333 / 1000\<bar> < 1 / 1000
          \<and> filled_cells r = 10
          \<and> bar_shown r = replicate 10 9608 @ replicate 20 9617)"
proof -
  let ?app = "\<lparr>tasks = [sample_task 1 TODO [], sample_task 2 DONE [],
                         sample_task 3 IN_PROGRESS []], current_id = 4\<rparr>"
  have h1: "length (tasks ?app) = 3" by simp
  have h2: "length (filter (\<lambda>t. status t = DONE) (tasks ?app)) = 1"
    by (simp add: sample_task_def)
  show ?thesis by (intro conjI h1 h2 stats_one_of_three [OF h1 h2])
qed

text \<open>
  Claim C9 as stated fails in its last number: the sample store has three tasks, one of
  them done, and its bar has 10 filled cells, not 9.
\<close>

theorem stats_filled_cells_counterexample:
  "length (tasks sample_store) = 3
   \<and> map status (tasks sample_store) = [DONE, TODO, CANCELLED]
   \<and> map_option filled_cells (report_of (show_stats sample_store)) = Some 10
   \<and> map_option filled_cells (report_of (show_stats sample_store)) \<noteq> Some 9"
proof -
  have h1: "length (tasks sample_store) = 3" by (simp add: sample_defs)
  have h2: "length (filter (\<lambda>t. status t = DONE) (tasks sample_store)) = 1"
    by (simp add: sample_defs)
  from one_done_of_three_report[OF h1 h2] obtain r where
    "show_stats sample_store = Inr (Report r)" "filled_cells r = 10" by blast
  then have a: "map_option filled_cells (report_of (show_stats sample_store)) = Some 10"
    by (simp add: report_of_def)
  have b: "map_option filled_cells (report_of (show_stats sample_store)) \<noteq> Some 9"
    by (simp add: a)
  have c: "map status (tasks sample_store) = [DONE, TODO, CANCELLED]"
    by (simp add: sample_defs)
  show ?thesis by (intro conjI h1 c a b)
qed

end
